theory Spec2Isabelle
  imports Main
begin

section \<open>Python strings\<close>

text \<open>
  A Python \<open>str\<close> is modelled as a \<^typ>\<open>string\<close>: one \<^typ>\<open>char\<close> per code point, for
  the code points below 256. The operations below are the built-in string methods that
  \<open>check_broken_images.py\<close> calls, restricted to that range.
\<close>

definition lower_char :: "char \<Rightarrow> char" where
  \<comment> \<open>\<open>str.lower\<close> on one code point: A-Z and the Latin-1 capitals move up by 32.\<close>
  "lower_char c =
     (let n = (of_char c :: nat)
      in if (65 \<le> n \<and> n \<le> 90) \<or> (192 \<le> n \<and> n \<le> 222 \<and> n \<noteq> 215)
         then char_of (n + 32) else c)"

definition lower :: "string \<Rightarrow> string" where
  "lower s = map lower_char s"

fun startswith :: "string \<Rightarrow> string \<Rightarrow> bool" where
  \<comment> \<open>\<open>s.startswith(p)\<close>\<close>
  "startswith s [] = True"
| "startswith [] (p # ps) = False"
| "startswith (c # cs) (p # ps) = (c = p \<and> startswith cs ps)"

fun str_in :: "string \<Rightarrow> string \<Rightarrow> bool" where
  \<comment> \<open>\<open>p in s\<close>: the substring test\<close>
  "str_in p [] = (p = [])"
| "str_in p (c # cs) = (startswith (c # cs) p \<or> str_in p cs)"

fun str_split :: "char \<Rightarrow> string \<Rightarrow> string list" where
  \<comment> \<open>\<open>s.split(sep)\<close> for a one-character separator\<close>
  "str_split sep [] = [[]]"
| "str_split sep (c # cs) =
     (if c = sep then [] # str_split sep cs
      else (case str_split sep cs of
              [] \<Rightarrow> [[c]]
            | w # ws \<Rightarrow> (c # w) # ws))"

definition str_split1 :: "char \<Rightarrow> string \<Rightarrow> string list" where
  \<comment> \<open>\<open>s.split(sep, 1)\<close>: at most one split, at the first separator\<close>
  "str_split1 sep s =
     (if sep \<in> set s
      then [takeWhile (\<lambda>c. c \<noteq> sep) s, tl (dropWhile (\<lambda>c. c \<noteq> sep) s)]
      else [s])"

definition isspace :: "char \<Rightarrow> bool" where
  \<comment> \<open>\<open>str.isspace\<close> on one code point below 256\<close>
  "isspace c =
     (let n = (of_char c :: nat)
      in (9 \<le> n \<and> n \<le> 13) \<or> (28 \<le> n \<and> n \<le> 32) \<or> n = 133 \<or> n = 160)"

definition strip :: "string \<Rightarrow> string" where
  \<comment> \<open>\<open>s.strip()\<close>\<close>
  "strip s = rev (dropWhile isspace (rev (dropWhile isspace s)))"

definition slice_last :: "nat \<Rightarrow> string \<Rightarrow> string" where
  \<comment> \<open>\<open>s[-n:]\<close> for \<open>n > 0\<close>: the last \<open>n\<close> characters, all of \<open>s\<close> when it is shorter\<close>
  "slice_last n s = drop (length s - n) s"

fun str_nat :: "nat \<Rightarrow> string" where
  "str_nat n =
     (if n < 10 then [char_of (48 + n)]
      else str_nat (n div 10) @ [char_of (48 + n mod 10)])"

definition str_int :: "int \<Rightarrow> string" where
  \<comment> \<open>\<open>str(i)\<close>, as an f-string formats an integer\<close>
  "str_int i = (if i < 0 then CHR ''-'' # str_nat (nat (- i)) else str_nat (nat i))"

section \<open>Exceptions\<close>

datatype exn = ValueError | OSError

section \<open>Configuration\<close>

definition default_domains :: "string list" where
  "default_domains = [''example.com'', ''cdn.example.com'']"


definition get_storage_classification :: "(string \<times> string) list" where
  \<comment> \<open>The dict literal, in insertion order, which is the order \<open>items()\<close> iterates in.\<close>
  "get_storage_classification =
     [(''s3.amazonaws.com'', ''Amazon Web Services''),
      (''data:image'', ''Base64 Encoded Image''),
      (''blob:'', ''Blob''),
      (''box.com'', ''Box''),
      (''confluence'', ''Confluence''),
      (''etrack:'', ''Etrack''),
      (''googleusercontent'', ''Google CDN''),
      (''chat.google.com'', ''Google Chat''),
      (''mail.google.com'', ''Google Mail''),
      (''gstatic.com'', ''Google Static Content''),
      (''imgur'', ''Imgur''),
      (''jira'', ''JIRA''),
      ([CHR ''c'', CHR '':'', CHR 0x5C], ''Local''),
      (''file:///'', ''Local''),
      (''wp-content'', ''WordPress''),
      (''zendesk'', ''Zendesk'')]"

definition STORAGE_CLASSIFICATION :: "(string \<times> string) list" where
  "STORAGE_CLASSIFICATION = get_storage_classification"

section \<open>Storage classification\<close>

fun classify_loop :: "(string \<times> string) list \<Rightarrow> string \<Rightarrow> string" where
  \<comment> \<open>The \<open>for\<close> loop of \<open>classify_image_storage\<close> over the remaining items.\<close>
  "classify_loop [] lower_url = ''Other''"
| "classify_loop ((key, classification) # items) lower_url =
     (if str_in (lower key) lower_url then classification
      else classify_loop items lower_url)"

definition classify_image_storage :: "string \<Rightarrow> string" where
  "classify_image_storage url = classify_loop STORAGE_CLASSIFICATION (lower url)"

section \<open>URL parsing\<close>

text \<open>
  \<open>urlparse\<close> and \<open>urljoin\<close> belong to the standard library, not to the script. The
  network location that \<open>urlparse\<close> returns is modelled after \<open>urllib.parse.urlsplit\<close>:
  leading C0 control characters and spaces are stripped, tabs and line breaks are removed,
  a leading scheme is cut off, and a rest that starts with two slashes gives the network
  location up to the next slash, question mark or hash. \<open>urlsplit\<close> raises
  \<open>ValueError\<close> on unbalanced square brackets. Its two further checks are parameters,
  each a predicate on the network location that says whether the check passes: the
  check of a network location with both brackets, which differs between versions of the
  library (the bracketed host alone, or also what stands around the brackets), and the
  check of a non-ASCII network location under NFKC normalisation. The path component,
  \<open>urljoin\<close> and the HTML parser are parameters too. The network location is not the
  host: it is the host together with any user information before an \<open>@\<close> and any port
  after a colon. \<open>url_hostname\<close> is the host that the library reads out of a network
  location (the \<open>hostname\<close> attribute, empty where that is \<open>None\<close>); the script never
  calls it, and it serves only to compare the two.
\<close>

record library =
  check_bracketed_netloc :: "string \<Rightarrow> bool"
  checknetloc :: "string \<Rightarrow> bool"
  url_path :: "string \<Rightarrow> string"
  urljoin :: "string \<Rightarrow> string \<Rightarrow> exn + string"
  select_img_srcs :: "string \<Rightarrow> string \<Rightarrow> string list option"
  title_string :: "string \<Rightarrow> string option"

definition c0_control_or_space :: "char \<Rightarrow> bool" where
  "c0_control_or_space c = ((of_char c :: nat) \<le> 32)"

definition unsafe_url_byte :: "char \<Rightarrow> bool" where
  \<comment> \<open>tab, carriage return, line feed\<close>
  "unsafe_url_byte c = (c = CHR 0x09 \<or> c = CHR 0x0D \<or> c = CHR 0x0A)"

definition ascii_alpha :: "char \<Rightarrow> bool" where
  "ascii_alpha c =
     (let n = (of_char c :: nat) in (65 \<le> n \<and> n \<le> 90) \<or> (97 \<le> n \<and> n \<le> 122))"

definition scheme_char :: "char \<Rightarrow> bool" where
  "scheme_char c =
     (let n = (of_char c :: nat)
      in (65 \<le> n \<and> n \<le> 90) \<or> (97 \<le> n \<and> n \<le> 122) \<or> (48 \<le> n \<and> n \<le> 57) \<or>
         c = CHR ''+'' \<or> c = CHR ''-'' \<or> c = CHR ''.'')"

definition isascii :: "string \<Rightarrow> bool" where
  "isascii s = list_all (\<lambda>c. (of_char c :: nat) < 128) s"

definition strip_scheme :: "string \<Rightarrow> string" where
  \<comment> \<open>\<open>i = url.find(':')\<close>; a prefix \<open>url[:i]\<close> of scheme characters is cut off with its colon.\<close>
  "strip_scheme url =
     (let pre = takeWhile (\<lambda>c. c \<noteq> CHR '':'') url
      in if CHR '':'' \<in> set url \<and> pre \<noteq> [] \<and> ascii_alpha (hd url) \<and> list_all scheme_char pre
         then drop (length pre + 1) url
         else url)"

definition netloc_delim :: "char \<Rightarrow> bool" where
  "netloc_delim c = (c = CHR ''/'' \<or> c = CHR ''?'' \<or> c = CHR ''#'')"

definition urlsplit_netloc :: "library \<Rightarrow> string \<Rightarrow> exn + string" where
  "urlsplit_netloc lib url0 =
     (let url = strip_scheme (filter (\<lambda>c. \<not> unsafe_url_byte c) (dropWhile c0_control_or_space url0))
      in if take 2 url = ''//'' then
           (let nl = takeWhile (\<lambda>c. \<not> netloc_delim c) (drop 2 url)
            in if (CHR ''['' \<in> set nl \<and> CHR '']'' \<notin> set nl) \<or>
                  (CHR '']'' \<in> set nl \<and> CHR ''['' \<notin> set nl)
               then Inl ValueError
               else if CHR ''['' \<in> set nl \<and> CHR '']'' \<in> set nl \<and>
                       \<not> check_bracketed_netloc lib nl
               then Inl ValueError
               else if nl \<noteq> [] \<and> \<not> isascii nl \<and> \<not> checknetloc lib nl
               then Inl ValueError
               else Inr nl)
         else Inr [])"

record url_parts =
  netloc :: string
  path :: string


definition urlparse :: "library \<Rightarrow> string \<Rightarrow> exn + url_parts" where
  "urlparse lib url =
     (case urlsplit_netloc lib url of
        Inl e \<Rightarrow> Inl e
      | Inr nl \<Rightarrow> Inr \<lparr>netloc = nl, path = url_path lib url\<rparr>)"

section \<open>Domain allowance check\<close>

fun any_allowed :: "string list \<Rightarrow> string \<Rightarrow> bool" where
  \<comment> \<open>\<open>any(allowed.lower() in domain for allowed in ALLOWED_IMG_DOMAINS)\<close>\<close>
  "any_allowed [] domain = False"
| "any_allowed (allowed # rest) domain =
     (if str_in (lower allowed) domain then True else any_allowed rest domain)"

definition is_allowed_domain :: "library \<Rightarrow> string list \<Rightarrow> string \<Rightarrow> exn + bool" where
  "is_allowed_domain lib ALLOWED_IMG_DOMAINS url =
     (case urlparse lib url of
        Inl e \<Rightarrow> Inl e
      | Inr parsed \<Rightarrow> Inr (any_allowed ALLOWED_IMG_DOMAINS (lower (netloc parsed))))"

section \<open>The HTTP session\<close>

text \<open>
  A request records the method and the keyword arguments the script passes. The network
  answers a request with a response or by raising \<open>RequestException\<close>; the answer may
  depend on the requests sent before. The session state is the list of requests sent so
  far, so that a call that leaves it unchanged has sent nothing.
\<close>

datatype http_method = HEAD | GET

record request =
  req_method :: http_method
  req_url :: string
  req_timeout :: nat
  req_stream :: bool
  req_allow_redirects :: bool

record response =
  status_code :: int
  content :: string

datatype outcome = Response response | RequestException string

type_synonym network = "request list \<Rightarrow> request \<Rightarrow> outcome"

definition send :: "network \<Rightarrow> request \<Rightarrow> request list \<Rightarrow> outcome \<times> request list" where
  "send net req sent = (net sent req, sent @ [req])"

definition head_request :: "string \<Rightarrow> request" where
  \<comment> \<open>\<open>session.head(url, timeout=10, allow_redirects=True)\<close>\<close>
  "head_request url =
     \<lparr>req_method = HEAD, req_url = url, req_timeout = 10, req_stream = False,
      req_allow_redirects = True\<rparr>"

definition get_stream_request :: "string \<Rightarrow> request" where
  \<comment> \<open>\<open>session.get(url, timeout=10, stream=True, allow_redirects=True)\<close>\<close>
  "get_stream_request url =
     \<lparr>req_method = GET, req_url = url, req_timeout = 10, req_stream = True,
      req_allow_redirects = True\<rparr>"

definition page_request :: "string \<Rightarrow> request" where
  \<comment> \<open>\<open>session.get(url, timeout=10)\<close>; a GET follows redirects unless told otherwise.\<close>
  "page_request url =
     \<lparr>req_method = GET, req_url = url, req_timeout = 10, req_stream = False,
      req_allow_redirects = True\<rparr>"

definition raise_for_status :: "response \<Rightarrow> bool" where
  \<comment> \<open>Whether \<open>response.raise_for_status()\<close> raises \<open>HTTPError\<close>: the requests library
      does so for the client and server error statuses.\<close>
  "raise_for_status r = (400 \<le> status_code r \<and> status_code r < 600)"

section \<open>Image checking\<close>

definition status_verdict :: "response \<Rightarrow> string option" where
  \<comment> \<open>The lines of \<open>check_image\<close> after the probes: the reason, or \<open>None\<close>.\<close>
  "status_verdict r =
     (if \<not> (200 \<le> status_code r \<and> status_code r < 300)
      then Some (''HTTP '' @ str_int (status_code r))
      else None)"

definition check_image ::
  "library \<Rightarrow> string list \<Rightarrow> network \<Rightarrow> string \<Rightarrow> request list \<Rightarrow>
   (exn + string option) \<times> request list" where
  "check_image lib ALLOWED_IMG_DOMAINS net url sent =
     (case is_allowed_domain lib ALLOWED_IMG_DOMAINS url of
        Inl e \<Rightarrow> (Inl e, sent)
      | Inr allowed \<Rightarrow>
          if \<not> allowed then (Inr (Some ''CSP Violation''), sent)
          else
            (case send net (head_request url) sent of
               (RequestException e, sent1) \<Rightarrow> (Inr (Some (''Network Error: '' @ e)), sent1)
             | (Response r, sent1) \<Rightarrow>
                 if status_code r = 405 then
                   (case send net (get_stream_request url) sent1 of
                      (RequestException e, sent2) \<Rightarrow>
                        (Inr (Some (''Network Error: '' @ e)), sent2)
                    | (Response r2, sent2) \<Rightarrow> (Inr (status_verdict r2), sent2))
                 else (Inr (status_verdict r), sent1)))"

section \<open>Page scraping\<close>

record image_record =
  Article_ID :: string
  Title :: string
  Page_URL :: string
  Broken_Image_URL :: string
  HTTP_Status_Code :: string
  Storage_Location :: string

definition list_index :: "'a \<Rightarrow> 'a list \<Rightarrow> nat" where
  \<comment> \<open>\<open>xs.index(x)\<close> when \<open>x\<close> is in \<open>xs\<close>\<close>
  "list_index x xs = length (takeWhile (\<lambda>y. y \<noteq> x) xs)"

definition get_article_id :: "library \<Rightarrow> string \<Rightarrow> exn + string" where
  "get_article_id lib url =
     (case urlparse lib url of
        Inl e \<Rightarrow> Inl e
      | Inr parsed_url \<Rightarrow>
          (let path_parts = filter (\<lambda>segment. segment \<noteq> []) (str_split CHR ''/'' (path parsed_url))
           in if ''article'' \<in> set path_parts then
                (let idx = list_index ''article'' path_parts
                 in if idx + 1 < length path_parts then Inr (path_parts ! (idx + 1))
                    else Inr [])
              else Inr []))"

definition get_title :: "library \<Rightarrow> string \<Rightarrow> string" where
  \<comment> \<open>\<open>title_string\<close> is \<open>soup.title.string\<close>, \<open>None\<close> when there is no title element or it
      has no single string.\<close>
  "get_title lib soup =
     (case title_string lib soup of
        None \<Rightarrow> []
      | Some s \<Rightarrow> if s \<noteq> [] then strip s else [])"

definition container_selectors :: "string list" where
  "container_selectors = [''.article-detail-card-content'']"

definition collect_images :: "library \<Rightarrow> string \<Rightarrow> string list" where
  \<comment> \<open>The \<open>src\<close> attributes of the \<open>img\<close> elements found in the containers, in order.\<close>
  "collect_images lib soup =
     concat (map (\<lambda>selector. case select_img_srcs lib soup selector of
                               None \<Rightarrow> []
                             | Some images_in_container \<Rightarrow> images_in_container)
                 container_selectors)"

definition unpack2 :: "'a list \<Rightarrow> exn + 'a \<times> 'a" where
  \<comment> \<open>Unpacking into two names raises \<open>ValueError\<close> unless there are exactly two values.\<close>
  "unpack2 xs = (case xs of [a, b] \<Rightarrow> Inr (a, b) | _ \<Rightarrow> Inl ValueError)"

definition shorten_data_uri :: "string \<Rightarrow> exn + string" where
  \<comment> \<open>The \<open>if image_url.startswith("data:image")\<close> block; the result is the new
      \<open>image_url\<close>.\<close>
  "shorten_data_uri image_url =
     (if startswith image_url ''data:image'' then
        (case unpack2 (str_split1 CHR '','' image_url) of
           Inl e \<Rightarrow> Inl e
         | Inr (prefix, base64_data) \<Rightarrow>
             (let shortened_base64 =
                    (if length base64_data > 40
                     then take 20 base64_data @ ''...'' @ slice_last 20 base64_data
                     else base64_data)
              in Inr (prefix @ '','' @ shortened_base64)))
      else Inr image_url)"

fun check_images ::
  "library \<Rightarrow> string list \<Rightarrow> network \<Rightarrow> string \<Rightarrow> string \<Rightarrow> string list \<Rightarrow>
   image_record list \<Rightarrow> request list \<Rightarrow> (exn + image_record list) \<times> request list" where
  \<comment> \<open>The \<open>for image in images\<close> loop, with \<open>broken_images\<close> as accumulator. \<open>if reason:\<close>
      holds for a non-empty string.\<close>
  "check_images lib ALLOWED_IMG_DOMAINS net url soup [] broken_images sent =
     (Inr broken_images, sent)"
| "check_images lib ALLOWED_IMG_DOMAINS net url soup (src # images) broken_images sent =
     (case urljoin lib url src of
        Inl e \<Rightarrow> (Inl e, sent)
      | Inr joined \<Rightarrow>
          (case shorten_data_uri joined of
             Inl e \<Rightarrow> (Inl e, sent)
           | Inr image_url \<Rightarrow>
               (case check_image lib ALLOWED_IMG_DOMAINS net image_url sent of
                  (Inl e, sent1) \<Rightarrow> (Inl e, sent1)
                | (Inr None, sent1) \<Rightarrow>
                    check_images lib ALLOWED_IMG_DOMAINS net url soup images broken_images sent1
                | (Inr (Some reason), sent1) \<Rightarrow>
                    if reason \<noteq> [] then
                      (let storage = classify_image_storage image_url
                       in case get_article_id lib url of
                            Inl e \<Rightarrow> (Inl e, sent1)
                          | Inr article_id \<Rightarrow>
                              check_images lib ALLOWED_IMG_DOMAINS net url soup images
                                (broken_images @
                                  [\<lparr>Article_ID = article_id,
                                    Title = get_title lib soup,
                                    Page_URL = url,
                                    Broken_Image_URL = image_url,
                                    HTTP_Status_Code = reason,
                                    Storage_Location = storage\<rparr>])
                                sent1)
                    else check_images lib ALLOWED_IMG_DOMAINS net url soup images
                           broken_images sent1)))"

definition scrape_and_check_images ::
  "library \<Rightarrow> string list \<Rightarrow> network \<Rightarrow> string \<Rightarrow> request list \<Rightarrow>
   (exn + image_record list) \<times> request list" where
  "scrape_and_check_images lib ALLOWED_IMG_DOMAINS net url sent =
     (case send net (page_request url) sent of
        (RequestException e, sent1) \<Rightarrow> (Inr [], sent1)
      | (Response r, sent1) \<Rightarrow>
          if raise_for_status r then (Inr [], sent1)
          else check_images lib ALLOWED_IMG_DOMAINS net url (content r)
                 (collect_images lib (content r)) [] sent1)"

section \<open>CSV output\<close>

text \<open>
  Paths are strings. \<open>path_join\<close> is the \<open>/\<close> of \<open>pathlib\<close> and \<open>path_parent\<close> its
  \<open>parent\<close>; both are parameters, with the two operations of \<open>save_to_csv\<close> on the file
  system, each of which succeeds or raises: \<open>mkdir\<close> is
  \<open>mkdir(parents=True, exist_ok=True)\<close> on a directory, and \<open>write_rows\<close> is the body of
  the \<open>with\<close> statement, which opens the file and writes the header and the rows;
  \<open>Some m\<close> is an exception with message \<open>m\<close>.
\<close>

record filesystem =
  path_join :: "string \<Rightarrow> string \<Rightarrow> string"
  path_parent :: "string \<Rightarrow> string"
  mkdir :: "string \<Rightarrow> string option"
  write_rows :: "string \<Rightarrow> string list list \<Rightarrow> string option"

datatype log_record = Data_saved string | Failed_to_save string

definition fieldnames :: "string list" where
  "fieldnames =
     [''Article ID'', ''Title'', ''Page URL'', ''Broken Image URL'', ''HTTP Status Code'',
      ''Storage Location'']"

definition csv_row :: "image_record \<Rightarrow> string list" where
  "csv_row r =
     [Article_ID r, Title r, Page_URL r, Broken_Image_URL r, HTTP_Status_Code r,
      Storage_Location r]"

definition save_to_csv ::
  "filesystem \<Rightarrow> string \<Rightarrow> string \<Rightarrow> image_record list \<Rightarrow> string \<Rightarrow> exn + log_record" where
  \<comment> \<open>\<open>timestamp\<close> is the formatted current time. The directory is created before the
      \<open>try\<close> statement, the file written inside it.\<close>
  "save_to_csv fs OUTPUT_DIRECTORY timestamp data filename_prefix =
     (let filename = filename_prefix @ ''_'' @ timestamp @ ''.csv'';
          output_path = path_join fs OUTPUT_DIRECTORY filename
      in case mkdir fs (path_parent fs output_path) of
           Some e \<Rightarrow> Inl OSError
         | None \<Rightarrow>
             (case write_rows fs output_path (fieldnames # map csv_row data) of
                None \<Rightarrow> Inr (Data_saved output_path)
              | Some e \<Rightarrow> Inr (Failed_to_save e)))"

section \<open>Example inputs\<close>

text \<open>
  Concrete inputs at which the functions above are evaluated below. \<open>page_library srcs\<close>
  is a library whose HTML parser finds the image sources \<open>srcs\<close> in the content
  container of every page, whose \<open>urljoin\<close> returns the source as it is, as it does for
  an absolute URL, and whose further \<open>urlsplit\<close> checks pass. \<open>fixed_network h g body\<close>
  answers every HEAD request with status \<open>h\<close> and every GET request with status \<open>g\<close> and
  content \<open>body\<close>; \<open>failing_network\<close> raises on every request. \<open>posix_join\<close> and
  \<open>posix_parent\<close> join a directory and a relative name with a slash and cut a path at
  its last slash. \<open>readonly_fs\<close> is a file system where creating a directory is not
  permitted, \<open>flaky_fs\<close> one where writing a file fails, and \<open>shallow_fs\<close> one where
  only \<open>/srv/reports\<close> itself can be created.
\<close>

definition page_library :: "string list \<Rightarrow> library" where
  "page_library srcs =
     \<lparr>check_bracketed_netloc = (\<lambda>nl. True),
      checknetloc = (\<lambda>nl. True),
      url_path = (\<lambda>url. ''/hc/article/42''),
      urljoin = (\<lambda>base url. Inr url),
      select_img_srcs = (\<lambda>soup selector. Some srcs),
      title_string = (\<lambda>soup. Some ''Install guide'')\<rparr>"

definition fixed_network :: "int \<Rightarrow> int \<Rightarrow> string \<Rightarrow> network" where
  "fixed_network head_status get_status body sent req =
     Response \<lparr>status_code = (if req_method req = HEAD then head_status else get_status),
               content = body\<rparr>"

definition failing_network :: network where
  "failing_network sent req = RequestException ''Connection refused''"

definition posix_join :: "string \<Rightarrow> string \<Rightarrow> string" where
  "posix_join dir name = dir @ ''/'' @ name"

definition posix_parent :: "string \<Rightarrow> string" where
  "posix_parent p = rev (drop 1 (dropWhile (\<lambda>c. c \<noteq> CHR ''/'') (rev p)))"

definition readonly_fs :: filesystem where
  "readonly_fs =
     \<lparr>path_join = posix_join,
      path_parent = posix_parent,
      mkdir = (\<lambda>dir. Some ''Permission denied''),
      write_rows = (\<lambda>output_path rows. Some ''No such file or directory'')\<rparr>"

definition flaky_fs :: filesystem where
  "flaky_fs =
     \<lparr>path_join = posix_join,
      path_parent = posix_parent,
      mkdir = (\<lambda>dir. None),
      write_rows = (\<lambda>output_path rows. Some ''No space left on device'')\<rparr>"

definition shallow_fs :: filesystem where
  "shallow_fs =
     \<lparr>path_join = posix_join,
      path_parent = posix_parent,
      mkdir = (\<lambda>dir. if dir = ''/srv/reports'' then None else Some ''Permission denied''),
      write_rows = (\<lambda>output_path rows. None)\<rparr>"

section \<open>Facts about the string primitives\<close>

lemma startswith_iff: "startswith s p \<longleftrightarrow> (\<exists>r. s = p @ r)"
  by (induction s p rule: startswith.induct) auto

lemma str_in_iff: "str_in p s \<longleftrightarrow> (\<exists>a b. s = a @ p @ b)"
proof (induction s)
  case Nil
  then show ?case by auto
next
  case (Cons c cs)
  show ?case
  proof
    assume "str_in p (c # cs)"
    then consider "startswith (c # cs) p" | "str_in p cs" by auto
    then show "\<exists>a b. c # cs = a @ p @ b"
    proof cases
      case 1
      then obtain r where "c # cs = p @ r" by (auto simp: startswith_iff)
      then have "c # cs = [] @ p @ r" by simp
      then show ?thesis by blast
    next
      case 2
      then obtain a b where "cs = a @ p @ b" using Cons.IH by blast
      then have "c # cs = (c # a) @ p @ b" by simp
      then show ?thesis by blast
    qed
  next
    assume "\<exists>a b. c # cs = a @ p @ b"
    then obtain a b where ab: "c # cs = a @ p @ b" by blast
    show "str_in p (c # cs)"
    proof (cases a)
      case Nil
      with ab have "startswith (c # cs) p" by (simp add: startswith_iff)
      then show ?thesis by simp
    next
      case (Cons x xs)
      with ab have "cs = xs @ p @ b" by simp
      then have "str_in p cs" using Cons.IH by blast
      then show ?thesis by simp
    qed
  qed
qed

lemma lower_append: "lower (a @ b) = lower a @ lower b"
  by (simp add: lower_def)

lemma lower_Nil_iff: "lower s = [] \<longleftrightarrow> s = []"
  by (simp add: lower_def)

section \<open>The classifier returns the first match\<close>

lemma classify_loop_first:
  "(\<exists>i < length items.
      str_in (lower (fst (items ! i))) u \<and>
      (\<forall>j < i. \<not> str_in (lower (fst (items ! j))) u) \<and>
      classify_loop items u = snd (items ! i))
   \<or> ((\<forall>i < length items. \<not> str_in (lower (fst (items ! i))) u) \<and>
       classify_loop items u = ''Other'')"
proof (induction items)
  case Nil
  then show ?case by simp
next
  case (Cons kv items)
  obtain key classification where kv: "kv = (key, classification)" by (cases kv)
  show ?case
  proof (cases "str_in (lower key) u")
    case True
    then have "str_in (lower (fst ((kv # items) ! 0))) u \<and>
        (\<forall>j < 0. \<not> str_in (lower (fst ((kv # items) ! j))) u) \<and>
        classify_loop (kv # items) u = snd ((kv # items) ! 0)"
      by (simp add: kv)
    then show ?thesis by blast
  next
    case False
    from Cons.IH show ?thesis
    proof
      assume "\<exists>i < length items.
          str_in (lower (fst (items ! i))) u \<and>
          (\<forall>j < i. \<not> str_in (lower (fst (items ! j))) u) \<and>
          classify_loop items u = snd (items ! i)"
      then obtain i where i: "i < length items" "str_in (lower (fst (items ! i))) u"
          "\<forall>j < i. \<not> str_in (lower (fst (items ! j))) u"
          "classify_loop items u = snd (items ! i)"
        by blast
      have none_before: "\<forall>j < Suc i. \<not> str_in (lower (fst ((kv # items) ! j))) u"
      proof (intro allI impI)
        fix j assume "j < Suc i"
        then show "\<not> str_in (lower (fst ((kv # items) ! j))) u"
          using False i(3) by (cases j) (simp_all add: kv)
      qed
      have "Suc i < length (kv # items) \<and>
          str_in (lower (fst ((kv # items) ! Suc i))) u \<and>
          classify_loop (kv # items) u = snd ((kv # items) ! Suc i)"
        using i False by (simp add: kv)
      with none_before show ?thesis by blast
    next
      assume none: "(\<forall>i < length items. \<not> str_in (lower (fst (items ! i))) u) \<and>
          classify_loop items u = ''Other''"
      have "\<forall>i < length (kv # items). \<not> str_in (lower (fst ((kv # items) ! i))) u"
      proof (intro allI impI)
        fix i assume "i < length (kv # items)"
        then show "\<not> str_in (lower (fst ((kv # items) ! i))) u"
          using False none by (cases i) (simp_all add: kv)
      qed
      moreover have "classify_loop (kv # items) u = ''Other''"
        using False none by (simp add: kv)
      ultimately show ?thesis by blast
    qed
  qed
qed

text \<open>
  Claim C1. For every URL, \<open>classify_image_storage\<close> returns the label of the first
  entry of the classification table, in its iteration order, whose lowercased pattern
  is a substring of the lowercased URL, and \<open>Other\<close> when no pattern is one. The
  function takes the URL alone and is a total HOL function of it: it reads no state and
  has no error case. The substring relation is written out as
  \<open>\<exists>a b. s = a @ p @ b\<close>.
\<close>

theorem classify_first_match:
  "(\<exists>i < length STORAGE_CLASSIFICATION.
      (\<exists>a b. lower url = a @ lower (fst (STORAGE_CLASSIFICATION ! i)) @ b) \<and>
      (\<forall>j < i. \<not> (\<exists>a b. lower url = a @ lower (fst (STORAGE_CLASSIFICATION ! j)) @ b)) \<and>
      classify_image_storage url = snd (STORAGE_CLASSIFICATION ! i))
   \<or> ((\<forall>i < length STORAGE_CLASSIFICATION.
          \<not> (\<exists>a b. lower url = a @ lower (fst (STORAGE_CLASSIFICATION ! i)) @ b)) \<and>
       classify_image_storage url = ''Other'')"
  using classify_loop_first [of STORAGE_CLASSIFICATION "lower url"]
  unfolding classify_image_storage_def str_in_iff .

theorem classify_first_match_witness:
  "classify_image_storage ''https://my.s3.amazonaws.com/wp-content/a.png'' =
     ''Amazon Web Services''"
proof -
  let ?u = "''https://my.s3.amazonaws.com/wp-content/a.png''"
  have T0: "STORAGE_CLASSIFICATION ! 0 = (''s3.amazonaws.com'', ''Amazon Web Services'')"
    by (simp add: STORAGE_CLASSIFICATION_def get_storage_classification_def)
  have len: "0 < length STORAGE_CLASSIFICATION"
    by (simp add: STORAGE_CLASSIFICATION_def get_storage_classification_def)
  have lk: "lower ''s3.amazonaws.com'' = ''s3.amazonaws.com''"
    by code_simp
  have lu: "lower ?u = ''https://my.'' @ ''s3.amazonaws.com'' @ ''/wp-content/a.png''"
    by code_simp
  have m0: "\<exists>a b. lower ?u = a @ lower (fst (STORAGE_CLASSIFICATION ! 0)) @ b"
    unfolding T0 fst_conv lk using lu by blast
  from classify_first_match [of ?u] show ?thesis
  proof
    assume "\<exists>i < length STORAGE_CLASSIFICATION.
      (\<exists>a b. lower ?u = a @ lower (fst (STORAGE_CLASSIFICATION ! i)) @ b) \<and>
      (\<forall>j < i. \<not> (\<exists>a b. lower ?u = a @ lower (fst (STORAGE_CLASSIFICATION ! j)) @ b)) \<and>
      classify_image_storage ?u = snd (STORAGE_CLASSIFICATION ! i)"
    then obtain i where
      first: "\<forall>j < i. \<not> (\<exists>a b. lower ?u = a @ lower (fst (STORAGE_CLASSIFICATION ! j)) @ b)"
      and res: "classify_image_storage ?u = snd (STORAGE_CLASSIFICATION ! i)"
      by blast
    have "i = 0"
    proof (rule ccontr)
      assume "i \<noteq> 0"
      then have "0 < i" by simp
      with first m0 show False by blast
    qed
    with res T0 show ?thesis by simp
  next
    assume "(\<forall>i < length STORAGE_CLASSIFICATION.
          \<not> (\<exists>a b. lower ?u = a @ lower (fst (STORAGE_CLASSIFICATION ! i)) @ b)) \<and>
       classify_image_storage ?u = ''Other''"
    with len m0 show ?thesis by blast
  qed
qed

section \<open>The domain check is substring containment in the network location\<close>


lemma any_allowed_empty_domain: "any_allowed ds [] \<longleftrightarrow> [] \<in> set ds"
  by (induction ds) (auto simp: lower_Nil_iff)




section \<open>The reachability check\<close>

text \<open>
  Claim C3. When the domain check returns false, \<open>check_image\<close> returns the reason
  \<open>CSP Violation\<close> and the list of requests sent is the one it was called with: no HEAD
  and no GET request is issued.
\<close>

theorem check_image_csp_violation:
  assumes "is_allowed_domain lib ALLOWED_IMG_DOMAINS url = Inr False"
  shows "check_image lib ALLOWED_IMG_DOMAINS net url sent = (Inr (Some ''CSP Violation''), sent)"
  using assms by (simp add: check_image_def)

theorem check_image_csp_violation_witness:
  "is_allowed_domain (page_library []) default_domains ''http://other.org/a.png'' = Inr False \<and>
   check_image (page_library []) default_domains (fixed_network 200 200 [])
     ''http://other.org/a.png'' [] = (Inr (Some ''CSP Violation''), [])"
proof -
  have h: "is_allowed_domain (page_library []) default_domains ''http://other.org/a.png'' =
      Inr False"
    by code_simp
  from check_image_csp_violation [OF h] h show ?thesis
    by simp
qed

text \<open>
  Claim C4. For an allowed URL whose HEAD request is answered with status 405,
  \<open>check_image\<close> sends exactly one further request, a GET with \<open>stream=True\<close>, the same
  timeout of 10 seconds and redirects followed, and decides from its answer alone,
  whatever its status: the requests sent are the HEAD and that GET, also when the GET is
  answered with 405. For any other HEAD status the HEAD is the only request. In both
  cases a final status from 200 to 299 gives no reason, and any other final status
  \<open>s\<close> gives the reason \<open>HTTP s\<close>.
\<close>

theorem check_image_head_then_get:
  assumes "is_allowed_domain lib ALLOWED_IMG_DOMAINS url = Inr True"
    and "net sent (head_request url) = Response r"
  shows "(status_code r = 405 \<longrightarrow>
            check_image lib ALLOWED_IMG_DOMAINS net url sent =
              ((case net (sent @ [head_request url]) (get_stream_request url) of
                  Response r2 \<Rightarrow>
                    Inr (if 200 \<le> status_code r2 \<and> status_code r2 < 300 then None
                         else Some (''HTTP '' @ str_int (status_code r2)))
                | RequestException e \<Rightarrow> Inr (Some (''Network Error: '' @ e))),
               sent @ [head_request url, get_stream_request url])) \<and>
         (status_code r \<noteq> 405 \<longrightarrow>
            check_image lib ALLOWED_IMG_DOMAINS net url sent =
              (Inr (if 200 \<le> status_code r \<and> status_code r < 300 then None
                    else Some (''HTTP '' @ str_int (status_code r))),
               sent @ [head_request url])) \<and>
         get_stream_request url =
           \<lparr>req_method = GET, req_url = url, req_timeout = req_timeout (head_request url),
            req_stream = True, req_allow_redirects = True\<rparr> \<and>
         req_timeout (head_request url) = 10"
  using assms
  by (auto simp: check_image_def send_def status_verdict_def get_stream_request_def
        head_request_def split: outcome.splits)

theorem check_image_head_then_get_witness:
  "check_image (page_library []) default_domains (fixed_network 405 405 [])
     ''http://example.com/a.png'' [] =
     (Inr (Some ''HTTP 405''),
      [head_request ''http://example.com/a.png'',
       get_stream_request ''http://example.com/a.png'']) \<and>
   check_image (page_library []) default_domains (fixed_network 405 204 [])
     ''http://example.com/a.png'' [] =
     (Inr None,
      [head_request ''http://example.com/a.png'',
       get_stream_request ''http://example.com/a.png''])"
proof -
  let ?u = "''http://example.com/a.png''"
  let ?L = "page_library []"
  have a: "is_allowed_domain ?L default_domains ?u = Inr True"
    by code_simp
  have h1: "fixed_network 405 405 [] [] (head_request ?u) =
      Response \<lparr>status_code = 405, content = []\<rparr>"
    by (simp add: fixed_network_def head_request_def)
  have h2: "fixed_network 405 204 [] [] (head_request ?u) =
      Response \<lparr>status_code = 405, content = []\<rparr>"
    by (simp add: fixed_network_def head_request_def)
  have g1: "fixed_network 405 405 [] ([] @ [head_request ?u]) (get_stream_request ?u) =
      Response \<lparr>status_code = 405, content = []\<rparr>"
    by (simp add: fixed_network_def get_stream_request_def)
  have g2: "fixed_network 405 204 [] ([] @ [head_request ?u]) (get_stream_request ?u) =
      Response \<lparr>status_code = 204, content = []\<rparr>"
    by (simp add: fixed_network_def get_stream_request_def)
  have s: "str_int 405 = ''405''"
    by code_simp
  from check_image_head_then_get
         [where net = "fixed_network 405 405 []" and sent = "[]", OF a h1]
       check_image_head_then_get
         [where net = "fixed_network 405 204 []" and sent = "[]", OF a h2]
       g1 g2 s
  show ?thesis
    by simp
qed

section \<open>Truncation of embedded images\<close>

lemma str_split1_first_comma:
  assumes "sep \<notin> set prefix"
  shows "str_split1 sep (prefix @ sep # payload) = [prefix, payload]"
proof -
  have "takeWhile (\<lambda>c. c \<noteq> sep) (prefix @ sep # payload) = prefix"
    using assms by (induction prefix) auto
  moreover have "dropWhile (\<lambda>c. c \<noteq> sep) (prefix @ sep # payload) = sep # payload"
    using assms by (induction prefix) auto
  ultimately show ?thesis
    by (simp add: str_split1_def)
qed

text \<open>
  Claim C5, amended. The truncation is guarded by the literal prefix \<open>data:image\<close>. A
  resolved URL that starts with it and has a first comma, with \<open>prefix\<close> before and
  \<open>payload\<close> after it, is stored as the prefix, the comma, the first 20 payload
  characters, three dots and the last 20 payload characters when the payload is longer
  than 40 characters, and unchanged when it is not. A URL that does not start with
  \<open>data:image\<close>, so every URL that is not a data URI and also a data URI of another
  media type, is stored unchanged.
\<close>

theorem shorten_data_uri_law:
  "(startswith url ''data:image'' \<and> url = prefix @ '','' @ payload \<and> CHR '','' \<notin> set prefix \<longrightarrow>
      shorten_data_uri url =
        Inr (if 40 < length payload
             then prefix @ '','' @ take 20 payload @ ''...'' @ drop (length payload - 20) payload
             else url)) \<and>
   (\<not> startswith url ''data:image'' \<longrightarrow> shorten_data_uri url = Inr url)"
proof (intro conjI impI)
  assume h: "startswith url ''data:image'' \<and> url = prefix @ '','' @ payload \<and> CHR '','' \<notin> set prefix"
  from h have sw: "startswith url ''data:image''"
    by (rule conjunct1)
  from h have url: "url = prefix @ CHR '','' # payload"
    by simp
  from h have nc: "CHR '','' \<notin> set prefix"
    by simp
  have sp: "unpack2 (str_split1 CHR '','' url) = Inr (prefix, payload)"
    unfolding url using nc by (simp add: str_split1_first_comma unpack2_def)
  have "shorten_data_uri url =
      Inr (prefix @ '','' @
           (if 40 < length payload then take 20 payload @ ''...'' @ slice_last 20 payload
            else payload))"
    unfolding shorten_data_uri_def using sw sp by (simp only: if_True sum.case prod.case Let_def)
  then show "shorten_data_uri url =
        Inr (if 40 < length payload
             then prefix @ '','' @ take 20 payload @ ''...'' @ drop (length payload - 20) payload
             else url)"
    by (simp add: slice_last_def url)
next
  assume "\<not> startswith url ''data:image''"
  then show "shorten_data_uri url = Inr url"
    by (simp add: shorten_data_uri_def)
qed

text \<open>
  Claim C5 states the truncation for every base64 data URI with a payload longer than 40
  characters. The code truncates only what starts with \<open>data:image\<close>: a base64 data
  URI of another media type keeps its payload of 56 characters.
\<close>

theorem shorten_data_uri_other_media_type_counterexample:
  "shorten_data_uri ''data:application/octet-stream;base64,iVBORw0KGgoAAAANSUhEUgAAAAEAAAABCAYAAAAfFcSJAAAADUlEQVR4'' =
     Inr ''data:application/octet-stream;base64,iVBORw0KGgoAAAANSUhEUgAAAAEAAAABCAYAAAAfFcSJAAAADUlEQVR4'' \<and>
   str_split1 CHR '','' ''data:application/octet-stream;base64,iVBORw0KGgoAAAANSUhEUgAAAAEAAAABCAYAAAAfFcSJAAAADUlEQVR4'' =
     [''data:application/octet-stream;base64'', ''iVBORw0KGgoAAAANSUhEUgAAAAEAAAABCAYAAAAfFcSJAAAADUlEQVR4''] \<and>
   40 < length ''iVBORw0KGgoAAAANSUhEUgAAAAEAAAABCAYAAAAfFcSJAAAADUlEQVR4''"
  by code_simp

theorem shorten_data_uri_law_witness:
  "shorten_data_uri ''data:image/png;base64,iVBORw0KGgoAAAANSUhEUgAAAAEAAAABCAYAAAAfFcSJAAAADUlEQVR4'' =
     Inr ''data:image/png;base64,iVBORw0KGgoAAAANSUhE...AAAfFcSJAAAADUlEQVR4'' \<and>
   shorten_data_uri ''data:image/gif;base64,R0lGODlhAQABAAAAACw='' =
     Inr ''data:image/gif;base64,R0lGODlhAQABAAAAACw='' \<and>
   shorten_data_uri ''https://cdn.example.com/a,b.png'' = Inr ''https://cdn.example.com/a,b.png''"
proof -
  let ?p = "''data:image/png;base64''"
  let ?long = "''iVBORw0KGgoAAAANSUhEUgAAAAEAAAABCAYAAAAfFcSJAAAADUlEQVR4''"
  let ?q = "''data:image/gif;base64''"
  let ?short = "''R0lGODlhAQABAAAAACw=''"
  let ?other = "''https://cdn.example.com/a,b.png''"
  have s1: "startswith (?p @ '','' @ ?long) ''data:image''" by simp
  have s2: "startswith (?q @ '','' @ ?short) ''data:image''" by simp
  have s3: "\<not> startswith ?other ''data:image''" by simp
  have c1: "CHR '','' \<notin> set ?p" by simp
  have c2: "CHR '','' \<notin> set ?q" by simp
  have "shorten_data_uri (?p @ '','' @ ?long) =
      Inr (?p @ '','' @ take 20 ?long @ ''...'' @ drop (length ?long - 20) ?long)"
    using shorten_data_uri_law [of "?p @ '','' @ ?long" ?p ?long] s1 c1 by simp
  moreover have "shorten_data_uri (?q @ '','' @ ?short) = Inr (?q @ '','' @ ?short)"
    using shorten_data_uri_law [of "?q @ '','' @ ?short" ?q ?short] s2 c2 by simp
  moreover have "shorten_data_uri ?other = Inr ?other"
    using shorten_data_uri_law [of ?other "[]" "[]"] s3 by simp
  ultimately show ?thesis by simp
qed

section \<open>Records of the page pipeline\<close>

lemma check_images_invariant:
  assumes "check_images lib A net url soup images broken_images sent = (Inr records, sent')"
    and "\<forall>rec \<in> set broken_images. Q rec"
    and "\<forall>src \<in> set images. \<forall>joined image_url reason article_id.
           urljoin lib url src = Inr joined \<longrightarrow>
           shorten_data_uri joined = Inr image_url \<longrightarrow>
           Q \<lparr>Article_ID = article_id, Title = get_title lib soup, Page_URL = url,
              Broken_Image_URL = image_url, HTTP_Status_Code = reason,
              Storage_Location = classify_image_storage image_url\<rparr>"
  shows "\<forall>rec \<in> set records. Q rec"
  using assms
proof (induction images arbitrary: broken_images sent)
  case Nil
  then show ?case by simp
next
  case (Cons src images)
  have step: "\<forall>src' \<in> set images. \<forall>joined image_url reason article_id.
           urljoin lib url src' = Inr joined \<longrightarrow>
           shorten_data_uri joined = Inr image_url \<longrightarrow>
           Q \<lparr>Article_ID = article_id, Title = get_title lib soup, Page_URL = url,
              Broken_Image_URL = image_url, HTTP_Status_Code = reason,
              Storage_Location = classify_image_storage image_url\<rparr>"
    using Cons.prems(3) by simp
  from Cons.prems(1) obtain joined where j: "urljoin lib url src = Inr joined"
    by (cases "urljoin lib url src") simp_all
  from Cons.prems(1) j obtain image_url where s: "shorten_data_uri joined = Inr image_url"
    by (cases "shorten_data_uri joined") simp_all
  obtain res sent1 where c: "check_image lib A net image_url sent = (res, sent1)"
    by (cases "check_image lib A net image_url sent")
  from Cons.prems(1) j s c obtain reason where r: "res = Inr reason"
    by (cases res) simp_all
  show ?case
  proof (cases "\<exists>why. reason = Some why \<and> why \<noteq> []")
    case True
    then obtain why where w: "reason = Some why" "why \<noteq> []" by blast
    from Cons.prems(1) j s c r w obtain article_id
      where a: "get_article_id lib url = Inr article_id"
      by (cases "get_article_id lib url") simp_all
    let ?new = "\<lparr>Article_ID = article_id, Title = get_title lib soup, Page_URL = url,
        Broken_Image_URL = image_url, HTTP_Status_Code = why,
        Storage_Location = classify_image_storage image_url\<rparr>"
    have rec: "check_images lib A net url soup images (broken_images @ [?new]) sent1 =
        (Inr records, sent')"
      using Cons.prems(1) j s c r w a by simp
    have "Q ?new"
      using Cons.prems(3) j s by simp
    with Cons.prems(2) have acc: "\<forall>rec \<in> set (broken_images @ [?new]). Q rec"
      by simp
    from rec acc step show ?thesis
      by (rule Cons.IH)
  next
    case False
    then have "check_images lib A net url soup images broken_images sent1 = (Inr records, sent')"
      using Cons.prems(1) j s c r by (cases reason) auto
    from this Cons.prems(2) step show ?thesis
      by (rule Cons.IH)
  qed
qed

text \<open>
  Claim C6. In every record that \<open>scrape_and_check_images\<close> returns, the storage
  location is \<open>classify_image_storage\<close> applied to the very string stored as the
  broken image URL of that record, and that string is the URL of an image of the page
  after the truncation step: classification and record assembly use the same
  post-truncation URL.
\<close>

theorem record_storage_is_classify_of_stored_url:
  assumes "scrape_and_check_images lib ALLOWED_IMG_DOMAINS net url sent = (Inr records, sent')"
  shows "\<forall>rec \<in> set records.
           Storage_Location rec = classify_image_storage (Broken_Image_URL rec) \<and>
           (\<exists>r src joined.
              net sent (page_request url) = Response r \<and>
              src \<in> set (collect_images lib (content r)) \<and>
              urljoin lib url src = Inr joined \<and>
              shorten_data_uri joined = Inr (Broken_Image_URL rec))"
proof (cases "net sent (page_request url)")
  case (RequestException e)
  with assms have "records = []"
    by (simp add: scrape_and_check_images_def send_def)
  then show ?thesis by simp
next
  case (Response r)
  show ?thesis
  proof (cases "raise_for_status r")
    case True
    with assms Response have "records = []"
      by (simp add: scrape_and_check_images_def send_def)
    then show ?thesis by simp
  next
    case False
    let ?Q = "\<lambda>rec. Storage_Location rec = classify_image_storage (Broken_Image_URL rec) \<and>
           (\<exists>src joined.
              src \<in> set (collect_images lib (content r)) \<and>
              urljoin lib url src = Inr joined \<and>
              shorten_data_uri joined = Inr (Broken_Image_URL rec))"
    from False assms Response
    have run: "check_images lib ALLOWED_IMG_DOMAINS net url (content r)
        (collect_images lib (content r)) [] (sent @ [page_request url]) = (Inr records, sent')"
      by (simp add: scrape_and_check_images_def send_def)
    have init: "\<forall>rec \<in> set []. ?Q rec"
      by simp
    have new: "\<forall>src \<in> set (collect_images lib (content r)).
        \<forall>joined image_url reason article_id.
           urljoin lib url src = Inr joined \<longrightarrow>
           shorten_data_uri joined = Inr image_url \<longrightarrow>
           ?Q \<lparr>Article_ID = article_id, Title = get_title lib (content r), Page_URL = url,
              Broken_Image_URL = image_url, HTTP_Status_Code = reason,
              Storage_Location = classify_image_storage image_url\<rparr>"
      by auto
    from run init new have "\<forall>rec \<in> set records. ?Q rec"
      by (rule check_images_invariant)
    with Response show ?thesis
      by blast
  qed
qed

theorem record_storage_is_classify_of_stored_url_witness:
  "scrape_and_check_images
     (page_library
        [''data:image/png;base64,iVBORw0KGgoAAAANSUhEUgAAAAEAAAABCAYAAAAfFcSJAAAADUlEQVR4''])
     default_domains (fixed_network 200 200 ''<html>'')
     ''https://help.example.com/hc/article/42'' [] =
     (Inr [\<lparr>Article_ID = ''42'', Title = ''Install guide'',
            Page_URL = ''https://help.example.com/hc/article/42'',
            Broken_Image_URL = ''data:image/png;base64,iVBORw0KGgoAAAANSUhE...AAAfFcSJAAAADUlEQVR4'',
            HTTP_Status_Code = ''CSP Violation'',
            Storage_Location = ''Base64 Encoded Image''\<rparr>],
      [page_request ''https://help.example.com/hc/article/42'']) \<and>
   classify_image_storage ''data:image/png;base64,iVBORw0KGgoAAAANSUhE...AAAfFcSJAAAADUlEQVR4'' =
     ''Base64 Encoded Image''"
proof -
  let ?rec = "\<lparr>Article_ID = ''42'', Title = ''Install guide'',
            Page_URL = ''https://help.example.com/hc/article/42'',
            Broken_Image_URL = ''data:image/png;base64,iVBORw0KGgoAAAANSUhE...AAAfFcSJAAAADUlEQVR4'',
            HTTP_Status_Code = ''CSP Violation'',
            Storage_Location = ''Base64 Encoded Image''\<rparr>"
  have run: "scrape_and_check_images
     (page_library
        [''data:image/png;base64,iVBORw0KGgoAAAANSUhEUgAAAAEAAAABCAYAAAAfFcSJAAAADUlEQVR4''])
     default_domains (fixed_network 200 200 ''<html>'')
     ''https://help.example.com/hc/article/42'' [] =
     (Inr [?rec], [page_request ''https://help.example.com/hc/article/42''])"
    by code_simp
  from record_storage_is_classify_of_stored_url [OF run]
  have "Storage_Location ?rec = classify_image_storage (Broken_Image_URL ?rec)"
    by simp
  with run show ?thesis
    by simp
qed

section \<open>A failed page fetch\<close>

text \<open>
  Claim C7 counts every status outside 200 to 299 as a failed fetch. The code calls
  \<open>raise_for_status\<close>, which raises for the statuses from 400 to 599 only: a page
  answered with status 300 is parsed like any other, and its image yields a record.
\<close>

theorem scrape_page_status_300_counterexample:
  "scrape_and_check_images (page_library [''http://other.org/a.png'']) default_domains
     (fixed_network 200 300 ''<html>'') ''https://help.example.com/hc/article/42'' [] =
     (Inr [\<lparr>Article_ID = ''42'', Title = ''Install guide'',
            Page_URL = ''https://help.example.com/hc/article/42'',
            Broken_Image_URL = ''http://other.org/a.png'',
            HTTP_Status_Code = ''CSP Violation'',
            Storage_Location = ''Other''\<rparr>],
      [page_request ''https://help.example.com/hc/article/42'']) \<and>
   fixed_network 200 300 ''<html>'' [] (page_request ''https://help.example.com/hc/article/42'') =
     Response \<lparr>status_code = 300, content = ''<html>''\<rparr>"
  by code_simp

text \<open>
  Claim C7, amended. When fetching the page raises a network error, or is answered with
  a status from 400 to 599, \<open>scrape_and_check_images\<close> returns the empty list of
  records and raises nothing; the page request is the only request sent. The caller
  therefore goes on with the next page.
\<close>

theorem scrape_failed_fetch_gives_no_records:
  assumes "(\<exists>e. net sent (page_request url) = RequestException e) \<or>
           (\<exists>r. net sent (page_request url) = Response r \<and>
                400 \<le> status_code r \<and> status_code r < 600)"
  shows "scrape_and_check_images lib ALLOWED_IMG_DOMAINS net url sent =
           (Inr [], sent @ [page_request url])"
  using assms
  by (auto simp: scrape_and_check_images_def send_def raise_for_status_def)

theorem scrape_failed_fetch_gives_no_records_witness:
  "scrape_and_check_images (page_library [''http://other.org/a.png'']) default_domains
     (fixed_network 200 404 ''<html>'') ''https://help.example.com/hc/article/42'' [] =
     (Inr [], [page_request ''https://help.example.com/hc/article/42'']) \<and>
   scrape_and_check_images (page_library [''http://other.org/a.png'']) default_domains
     failing_network ''https://help.example.com/hc/article/42'' [] =
     (Inr [], [page_request ''https://help.example.com/hc/article/42''])"
proof -
  let ?u = "''https://help.example.com/hc/article/42''"
  have a: "(\<exists>e. fixed_network 200 404 ''<html>'' [] (page_request ?u) = RequestException e) \<or>
           (\<exists>r. fixed_network 200 404 ''<html>'' [] (page_request ?u) = Response r \<and>
                400 \<le> status_code r \<and> status_code r < 600)"
    by (simp add: fixed_network_def page_request_def)
  have b: "(\<exists>e. failing_network [] (page_request ?u) = RequestException e) \<or>
           (\<exists>r. failing_network [] (page_request ?u) = Response r \<and>
                400 \<le> status_code r \<and> status_code r < 600)"
    by (simp add: failing_network_def)
  from scrape_failed_fetch_gives_no_records
         [where net = "fixed_network 200 404 ''<html>''" and sent = "[]", OF a]
       scrape_failed_fetch_gives_no_records
         [where net = failing_network and sent = "[]", OF b]
  show ?thesis
    by simp
qed

section \<open>A data URI without a comma\<close>

lemma check_images_raises:
  assumes "src \<in> set images"
    and "urljoin lib url src = Inr joined"
    and "shorten_data_uri joined = Inl e"
  shows "\<exists>e' sent'. check_images lib A net url soup images broken_images sent = (Inl e', sent')"
  using assms(1)
proof (induction images arbitrary: broken_images sent)
  case Nil
  then show ?case by simp
next
  case (Cons x images)
  show ?case
  proof (cases "x = src")
    case True
    with assms(2,3) show ?thesis by simp
  next
    case False
    with Cons.prems have "src \<in> set images" by simp
    then have IH: "\<And>broken_images sent.
        \<exists>e' sent'. check_images lib A net url soup images broken_images sent = (Inl e', sent')"
      using Cons.IH by blast
    show ?thesis
      using IH by (auto split: sum.splits prod.splits option.splits)
  qed
qed

lemma shorten_data_uri_no_comma:
  assumes "startswith joined ''data:image''" and "CHR '','' \<notin> set joined"
  shows "shorten_data_uri joined = Inl ValueError"
  using assms by (simp add: shorten_data_uri_def str_split1_def unpack2_def)

text \<open>
  Claim C10. There are pages on which \<open>scrape_and_check_images\<close> raises: whenever the
  page is fetched and one of its images resolves to a URL that starts with
  \<open>data:image\<close> and has no comma, unpacking the result of \<open>split(',', 1)\<close> raises
  \<open>ValueError\<close>, nothing catches it, and the call ends in an exception instead of a
  list of records, also losing the records of the images before it.
\<close>

theorem scrape_raises_on_data_uri_without_comma:
  assumes "net sent (page_request url) = Response r"
    and "\<not> (400 \<le> status_code r \<and> status_code r < 600)"
    and "src \<in> set (collect_images lib (content r))"
    and "urljoin lib url src = Inr joined"
    and "startswith joined ''data:image''"
    and "CHR '','' \<notin> set joined"
  shows "\<exists>e sent'. scrape_and_check_images lib ALLOWED_IMG_DOMAINS net url sent = (Inl e, sent')"
proof -
  have "shorten_data_uri joined = Inl ValueError"
    using assms(5,6) by (rule shorten_data_uri_no_comma)
  with assms(3,4)
  have "\<exists>e sent'. check_images lib ALLOWED_IMG_DOMAINS net url (content r)
      (collect_images lib (content r)) [] (sent @ [page_request url]) = (Inl e, sent')"
    by (rule check_images_raises)
  with assms(1,2) show ?thesis
    by (simp add: scrape_and_check_images_def send_def raise_for_status_def)
qed

theorem scrape_raises_on_data_uri_without_comma_witness:
  "scrape_and_check_images (page_library [''http://other.org/a.png'', ''data:image/png''])
     default_domains (fixed_network 200 200 ''<html>'')
     ''https://help.example.com/hc/article/42'' [] =
     (Inl ValueError, [page_request ''https://help.example.com/hc/article/42''])"
proof -
  let ?u = "''https://help.example.com/hc/article/42''"
  let ?L = "page_library [''http://other.org/a.png'', ''data:image/png'']"
  let ?N = "fixed_network 200 200 ''<html>''"
  have 1: "?N [] (page_request ?u) = Response \<lparr>status_code = 200, content = ''<html>''\<rparr>"
    by (simp add: fixed_network_def page_request_def)
  have 2: "\<not> (400 \<le> status_code \<lparr>status_code = 200, content = ''<html>''\<rparr> \<and>
      status_code \<lparr>status_code = 200, content = ''<html>''\<rparr> < 600)"
    by simp
  have 3: "''data:image/png'' \<in> set (collect_images ?L (content \<lparr>status_code = 200, content = ''<html>''\<rparr>))"
    by (simp add: collect_images_def container_selectors_def page_library_def)
  have 4: "urljoin ?L ?u ''data:image/png'' = Inr ''data:image/png''"
    by (simp add: page_library_def)
  have 5: "startswith ''data:image/png'' ''data:image''"
    by simp
  have 6: "CHR '','' \<notin> set ''data:image/png''"
    by simp
  have run: "scrape_and_check_images ?L default_domains ?N ?u [] =
      (Inl ValueError, [page_request ?u])"
    by code_simp
  from scrape_raises_on_data_uri_without_comma
         [where net = ?N and sent = "[]" and ALLOWED_IMG_DOMAINS = default_domains,
          OF 1 2 3 4 5 6]
  obtain e sent' where "scrape_and_check_images ?L default_domains ?N ?u [] = (Inl e, sent')"
    by blast
  with run show ?thesis
    by simp
qed

section \<open>Embedded images and the allow-list\<close>

lemma strip_scheme_data_image: "strip_scheme (''data:image'' @ r) = ''image'' @ r"
proof -
  have a: "ascii_alpha CHR ''d''" by code_simp
  have b: "list_all scheme_char ''data''" by code_simp
  have t: "takeWhile (\<lambda>c. c \<noteq> CHR '':'') (''data:image'' @ r) = ''data''" by simp
  show ?thesis
    unfolding strip_scheme_def t using a b by (simp add: Let_def)
qed

lemma urlsplit_netloc_data_image:
  assumes "startswith url ''data:image''"
  shows "urlsplit_netloc lib url = Inr []"
proof -
  from assms obtain r where url: "url = ''data:image'' @ r"
    by (auto simp: startswith_iff)
  have c: "\<not> c0_control_or_space CHR ''d''" by code_simp
  have d: "dropWhile c0_control_or_space url = url"
    unfolding url using c by simp
  have f0: "filter (\<lambda>c. \<not> unsafe_url_byte c) ''data:image'' = ''data:image''" by code_simp
  have f: "filter (\<lambda>c. \<not> unsafe_url_byte c) url =
      ''data:image'' @ filter (\<lambda>c. \<not> unsafe_url_byte c) r"
    unfolding url filter_append f0 ..
  show ?thesis
    unfolding urlsplit_netloc_def d f strip_scheme_data_image by simp
qed

lemma is_allowed_domain_data_image:
  assumes "startswith url ''data:image''" and "[] \<notin> set ALLOWED_IMG_DOMAINS"
  shows "is_allowed_domain lib ALLOWED_IMG_DOMAINS url = Inr False"
  using assms
  by (simp add: is_allowed_domain_def urlparse_def urlsplit_netloc_data_image lower_def
      any_allowed_empty_domain)

lemma classify_data_image:
  assumes "startswith url ''data:image''"
  shows "classify_image_storage url =
     (if \<exists>a b. lower url = a @ ''s3.amazonaws.com'' @ b then ''Amazon Web Services''
      else ''Base64 Encoded Image'')"
proof -
  from assms obtain r where url: "url = ''data:image'' @ r"
    by (auto simp: startswith_iff)
  have l0: "lower ''data:image'' = ''data:image''" by code_simp
  have l1: "lower ''s3.amazonaws.com'' = ''s3.amazonaws.com''" by code_simp
  have "lower url = [] @ ''data:image'' @ lower r"
    unfolding url lower_append l0 by simp
  then have m: "str_in ''data:image'' (lower url)"
    unfolding str_in_iff by blast
  have "classify_image_storage url =
     (if str_in ''s3.amazonaws.com'' (lower url) then ''Amazon Web Services''
      else ''Base64 Encoded Image'')"
    using m
    by (simp add: classify_image_storage_def STORAGE_CLASSIFICATION_def
        get_storage_classification_def l0 l1)
  then show ?thesis
    unfolding str_in_iff .
qed

text \<open>
  Claim C9, amended. For every URL that starts with \<open>data:image\<close>, as the resolved URL
  of an embedded image does before and after truncation, and every allow-list without an
  empty entry, \<open>check_image\<close> returns \<open>CSP Violation\<close> and sends no request, because the
  URL has an empty host. The image is classified \<open>Base64 Encoded Image\<close>, unless its
  lowercased URL contains \<open>s3.amazonaws.com\<close>, the pattern of the table's first entry:
  then it is classified \<open>Amazon Web Services\<close>.
\<close>

theorem data_image_is_csp_violation:
  assumes "startswith url ''data:image''" and "[] \<notin> set ALLOWED_IMG_DOMAINS"
  shows "check_image lib ALLOWED_IMG_DOMAINS net url sent = (Inr (Some ''CSP Violation''), sent) \<and>
         classify_image_storage url =
           (if \<exists>a b. lower url = a @ ''s3.amazonaws.com'' @ b then ''Amazon Web Services''
            else ''Base64 Encoded Image'')"
  using assms
  by (simp add: check_image_def is_allowed_domain_data_image classify_data_image)

text \<open>
  Claim C9 says that every such image is classified \<open>Base64 Encoded Image\<close>. The table
  is searched in order and \<open>s3.amazonaws.com\<close> comes before \<open>data:image\<close>: a data URI
  whose text contains the former, here in a payload short enough to be stored unchanged,
  is classified \<open>Amazon Web Services\<close>.
\<close>

theorem data_image_classified_aws_counterexample:
  "startswith ''data:image/png;base64,s3.amazonaws.com'' ''data:image'' \<and>
   shorten_data_uri ''data:image/png;base64,s3.amazonaws.com'' =
     Inr ''data:image/png;base64,s3.amazonaws.com'' \<and>
   classify_image_storage ''data:image/png;base64,s3.amazonaws.com'' = ''Amazon Web Services''"
  by code_simp

theorem data_image_is_csp_violation_witness:
  "check_image (page_library []) default_domains (fixed_network 200 200 [])
     ''data:image/gif;base64,R0lGODlhAQABAAAAACw='' [] = (Inr (Some ''CSP Violation''), []) \<and>
   classify_image_storage ''data:image/gif;base64,R0lGODlhAQABAAAAACw='' = ''Base64 Encoded Image''"
proof -
  let ?u = "''data:image/gif;base64,R0lGODlhAQABAAAAACw=''"
  have 1: "startswith ?u ''data:image''" by simp
  have 2: "[] \<notin> set default_domains" by (simp add: default_domains_def)
  have 3: "classify_image_storage ?u = ''Base64 Encoded Image''" by code_simp
  from data_image_is_csp_violation [OF 1 2, of "page_library []" "fixed_network 200 200 []" "[]"] 3
  show ?thesis
    by simp
qed

section \<open>Writing the report\<close>

lemma save_to_csv_write_failure_caught:
  assumes "mkdir fs (path_parent fs (path_join fs OUTPUT_DIRECTORY
             (filename_prefix @ ''_'' @ timestamp @ ''.csv''))) = None"
  shows "\<exists>l. save_to_csv fs OUTPUT_DIRECTORY timestamp data filename_prefix = Inr l"
  using assms by (auto simp: save_to_csv_def Let_def split: option.splits)

lemma save_to_csv_flaky_fs:
  "save_to_csv flaky_fs ''/srv/reports'' ''20250526_101500'' [] ''broken_images_single_page'' =
     Inr (Failed_to_save ''No space left on device'')"
  by code_simp

lemma save_to_csv_nested_prefix:
  "save_to_csv shallow_fs ''/srv/reports'' ''20250526_101500'' [] ''broken_images_single_page'' =
     Inr (Data_saved ''/srv/reports/broken_images_single_page_20250526_101500.csv'') \<and>
   save_to_csv shallow_fs ''/srv/reports'' ''20250526_101500'' [] ''weekly/broken_images'' =
     Inl OSError"
  by code_simp

text \<open>
  Claim C8 says that every failure while writing the report, the failure to create the
  output directory included, is caught and logged. An exception raised in the \<open>with\<close>
  statement is caught, as the first two lemmas above show. The directory, which is the
  parent of the output path, is created before the \<open>try\<close> statement, though: where
  creating it is not permitted, \<open>save_to_csv\<close> raises.
\<close>

theorem save_to_csv_mkdir_failure_raises:
  "save_to_csv readonly_fs ''/srv/reports'' ''20250526_101500'' [] ''broken_images_single_page'' =
     Inl OSError"
  by code_simp

end
